theory Spec2Isabelle
  imports Complex_Main "HOL-Library.Word"
begin

unbundle bit_operations_syntax

section \<open>Errors\<close>

text \<open>
  A Go panic ends the call that raised it. The model returns it as a value: every
  function that can panic has the result type \<open>error + 'a\<close>, with \<open>Inl\<close> for the
  panic. \<open>Panic msg\<close> is an explicit \<^verbatim>\<open>panic(msg)\<close> of the source, \<open>NilDereference\<close>
  the runtime panic of reading a field through a nil pointer, \<open>IndexOutOfRange\<close> the
  runtime panic of indexing a slice outside its length. \<open>NetError\<close> is not a panic but an
  error value of the network library, handed to the error handler.
\<close>

datatype error = Panic string | NilDereference | IndexOutOfRange | NetError string

section \<open>Strings\<close>

text \<open>
  Go strings are byte sequences, and so is \<^typ>\<open>string\<close>.
  \<^verbatim>\<open>strings.HasSuffix(s, suffix)\<close> is
  \<^verbatim>\<open>len(s) >= len(suffix) && s[len(s)-len(suffix):] == suffix\<close>, and
  \<^verbatim>\<open>strings.TrimSuffix\<close> removes the suffix once when it is there.
\<close>

definition HasSuffix :: "string \<Rightarrow> string \<Rightarrow> bool" where
  "HasSuffix s suffix \<longleftrightarrow>
     length suffix \<le> length s \<and> drop (length s - length suffix) s = suffix"

definition TrimSuffix :: "string \<Rightarrow> string \<Rightarrow> string" where
  "TrimSuffix s suffix =
     (if HasSuffix s suffix then take (length s - length suffix) s else s)"

section \<open>Tag sets\<close>

text \<open>
  \<^verbatim>\<open>type Tags struct { kvs map[string]string; keys []string }\<close>.
  Reading a Go map at a key it does not hold gives the zero value, the empty string:
  that is \<open>index\<close>. The presence test \<^verbatim>\<open>_, present := m[k]\<close> is \<open>m k \<noteq> None\<close>.
\<close>

record Tags =
  kvs :: "string \<rightharpoonup> string"
  keys :: "string list"

definition index :: "(string \<rightharpoonup> string) \<Rightarrow> string \<Rightarrow> string" where
  "index m k = (case m k of None \<Rightarrow> [] | Some v \<Rightarrow> v)"

definition emptyTags :: Tags where
  "emptyTags = \<lparr>kvs = Map.empty, keys = []\<rparr>"

text \<open>
  \<^verbatim>\<open>newTags\<close>: the panic on an odd number of arguments, the empty set for none, and
  the loop \<^verbatim>\<open>for i := 0; i < numTags; i++\<close> over the pairs. The loop reads
  \<^verbatim>\<open>tags[i<<1]\<close> and \<^verbatim>\<open>tags[1+i<<1]\<close> (the shift binds tighter than the sum) and
  writes \<^verbatim>\<open>tagKeys[i]\<close>; an index outside the slice would panic, which the model
  keeps as a branch.
\<close>

function newTags_loop ::
  "string list \<Rightarrow> nat \<Rightarrow> nat \<Rightarrow> (string \<rightharpoonup> string) \<Rightarrow> string list \<Rightarrow> error + Tags" where
  "newTags_loop tags numTags i newTags tagKeys =
     (if i < numTags then
        (if 1 + push_bit 1 i < length tags \<and> i < length tagKeys then
           (let k = tags ! (push_bit 1 i); v = tags ! (1 + push_bit 1 i)
            in newTags_loop tags numTags (i + 1) (newTags(k \<mapsto> v)) (tagKeys[i := k]))
         else Inl IndexOutOfRange)
      else Inr \<lparr>kvs = newTags, keys = tagKeys\<rparr>)"
  by pat_completeness auto
termination
  by (relation "measure (\<lambda>(tags, numTags, i, newTags, tagKeys). numTags - i)") auto

declare newTags_loop.simps [simp del]

definition newTags :: "string list \<Rightarrow> error + Tags" where
  "newTags tags =
     (if length tags AND 1 = 1 then
        Inl (Panic ''statsd: newTags only accepts an even number of arguments'')
      else if length tags = 0 then Inr emptyTags
      else (let numTags = drop_bit 1 (length tags)
            in newTags_loop tags numTags 0 Map.empty (replicate numTags [])))"

text \<open>
  \<^verbatim>\<open>func (this *Tags) append(that *Tags)\<close>: for each key of \<open>that\<close>, in order, a key
  that \<open>this.kvs\<close> does not hold yet is stored with \<open>that\<close>'s value and appended to
  \<open>this.keys\<close>. The receiver is updated in place; the model returns the updated
  receiver. The \<^verbatim>\<open>range\<close> evaluates \<open>that.keys\<close> once, so the loop runs over the
  key list as it was at the start.
\<close>

fun append_loop :: "Tags \<Rightarrow> (string \<rightharpoonup> string) \<Rightarrow> string list \<Rightarrow> Tags" where
  "append_loop this that_kvs [] = this"
| "append_loop this that_kvs (k # ks) =
     append_loop
       (if kvs this k = None
        then this\<lparr>kvs := (kvs this)(k \<mapsto> index that_kvs k), keys := keys this @ [k]\<rparr>
        else this)
       that_kvs ks"

definition append_tags :: "Tags \<Rightarrow> Tags \<Rightarrow> Tags" where
  "append_tags this that = append_loop this (kvs that) (keys that)"

definition numTags :: "Tags \<Rightarrow> nat" where
  "numTags this = length (keys this)"

text \<open>
  \<^verbatim>\<open>clone\<close>: a new map and a new key slice of the same length, filled by
  \<^verbatim>\<open>for i, k := range this.keys { kvs[k] = this.kvs[k]; keys[i] = k }\<close>.
\<close>

fun clone_loop ::
  "(string \<rightharpoonup> string) \<Rightarrow> nat \<Rightarrow> string list \<Rightarrow> (string \<rightharpoonup> string) \<Rightarrow> string list \<Rightarrow> Tags" where
  "clone_loop this_kvs i [] kvs' keys' = \<lparr>kvs = kvs', keys = keys'\<rparr>"
| "clone_loop this_kvs i (k # ks) kvs' keys' =
     clone_loop this_kvs (i + 1) ks (kvs'(k \<mapsto> index this_kvs k)) (keys'[i := k])"

definition clone :: "Tags \<Rightarrow> Tags" where
  "clone this =
     (let n = numTags this
      in clone_loop (kvs this) 0 (keys this) Map.empty (replicate n []))"

text \<open>
  \<^verbatim>\<open>type TagFormat uint8\<close>, with \<^verbatim>\<open>InfluxDB = iota + 1\<close> and \<^verbatim>\<open>Datadog\<close> the
  next value. The zero value is the unset format.
\<close>

type_synonym TagFormat = "8 word"

definition InfluxDB :: TagFormat where
  "InfluxDB = 1"

definition Datadog :: TagFormat where
  "Datadog = 2"

text \<open>
  \<^verbatim>\<open>format\<close>: the two loops write into a byte buffer, which the model passes along
  as an accumulator. The Datadog branch starts from \<^verbatim>\<open>"|#"\<close>, writes a comma after
  every pair and trims one trailing comma from the result.
\<close>

fun format_influx :: "(string \<rightharpoonup> string) \<Rightarrow> string list \<Rightarrow> string \<Rightarrow> string" where
  "format_influx m [] buf = buf"
| "format_influx m (k # ks) buf =
     format_influx m ks (buf @ '','' @ k @ ''='' @ index m k)"

fun format_datadog :: "(string \<rightharpoonup> string) \<Rightarrow> string list \<Rightarrow> string \<Rightarrow> string" where
  "format_datadog m [] buf = buf"
| "format_datadog m (k # ks) buf =
     format_datadog m ks (buf @ k @ '':'' @ index m k @ '','')"

definition format :: "Tags \<Rightarrow> TagFormat \<Rightarrow> string" where
  "format this tf =
     (if numTags this = 0 then []
      else if tf = InfluxDB then format_influx (kvs this) (keys this) []
      else if tf = Datadog then
        (let result = format_datadog (kvs this) (keys this) ''|#''
         in TrimSuffix result '','')
      else [])"

section \<open>The store\<close>

text \<open>
  \<^verbatim>\<open>*Tags\<close> and \<^verbatim>\<open>*conn\<close> are pointers: a client and its configuration can
  hold the same tag set, and all clones of a client hold the same connection. The model
  keeps the objects in a store, a map from addresses to values; a pointer is an
  \<open>addr option\<close>, \<open>None\<close> for nil. \<open>nxt\<close> is the next address to hand out.
  Reading through a nil pointer panics. An address outside the store does not arise in
  Go; the model gives it the same result.
\<close>

type_synonym addr = nat

datatype handler = Handler nat

text \<open>
  Modelled from the spec: the network endpoint behind \<^verbatim>\<open>conn.w\<close>. The source calls
  \<^verbatim>\<open>c.conn.w.Close()\<close>; the endpoint itself is outside the repository. \<open>sent\<close>
  lists the packets written to the endpoint, oldest first; \<open>fail\<close> is the error the
  endpoint answers a write or a close with (\<open>None\<close> while it is healthy).
\<close>

record writer =
  sent :: "string list"
  fail :: "error option"

text \<open>
  Modelled from the spec: the Transport, \<^verbatim>\<open>type conn\<close>, whose defining file is
  missing. The source names its fields \<^verbatim>\<open>mu\<close>, \<^verbatim>\<open>w\<close>, \<^verbatim>\<open>closed\<close> and
  \<^verbatim>\<open>tagFormat\<close>; the spec gives it the outbound buffer, the maximum packet size and
  the error handler. \<open>reported\<close> lists the errors passed to the handler. The lock and
  the periodic flush task are not modelled: calls run one after the other.
\<close>

record conn =
  buf :: string
  closed :: bool
  maxPacketSize :: int
  conn_tagFormat :: TagFormat
  errorHandler :: "handler option"
  reported :: "error list"
  w :: writer

record store =
  tagsH :: "addr \<rightharpoonup> Tags"
  connH :: "addr \<rightharpoonup> conn"
  nxt :: addr

definition deref :: "(addr \<rightharpoonup> 'a) \<Rightarrow> addr option \<Rightarrow> error + 'a" where
  "deref h p =
     (case p of
        None \<Rightarrow> Inl NilDereference
      | Some a \<Rightarrow> (case h a of None \<Rightarrow> Inl NilDereference | Some v \<Rightarrow> Inr v))"

definition alloc_tags :: "Tags \<Rightarrow> store \<Rightarrow> addr \<times> store" where
  "alloc_tags t st = (nxt st, st\<lparr>tagsH := (tagsH st)(nxt st \<mapsto> t), nxt := Suc (nxt st)\<rparr>)"

section \<open>The Transport\<close>

text \<open>
  Modelled from the spec: \<^verbatim>\<open>conn.handleError\<close>. Every failure is passed to the
  configured handler; without a handler it is discarded.
\<close>

definition handleError :: "conn \<Rightarrow> error option \<Rightarrow> conn" where
  "handleError c err =
     (case err of
        None \<Rightarrow> c
      | Some e \<Rightarrow>
          (case errorHandler c of
             None \<Rightarrow> c
           | Some h \<Rightarrow> c\<lparr>reported := reported c @ [e]\<rparr>))"

text \<open>
  Modelled from the spec: writing a packet to the endpoint and closing the endpoint.
  Each returns the endpoint's answer. That the Transport is closed is recorded in its
  \<open>closed\<close> field alone.
\<close>

definition w_Write :: "conn \<Rightarrow> string \<Rightarrow> conn \<times> error option" where
  "w_Write c p = (c\<lparr>w := (w c)\<lparr>sent := sent (w c) @ [p]\<rparr>\<rparr>, fail (w c))"

definition w_Close :: "conn \<Rightarrow> conn \<times> error option" where
  "w_Close c = (c, fail (w c))"

text \<open>
  Modelled from the spec: \<^verbatim>\<open>conn.flush\<close>. It writes the buffer's bytes to the
  endpoint if the buffer is non-empty, then clears it; on an empty buffer it does
  nothing. A write failure goes to the error handler. In the closed state every
  operation of the Transport is a no-op. The spec gives the argument (the source
  passes 0) no effect.
\<close>

definition conn_flush :: "conn \<Rightarrow> int \<Rightarrow> conn" where
  "conn_flush c n =
     (if closed c then c
      else if buf c = [] then c
      else (let (c1, err) = w_Write c (buf c)
            in (handleError c1 err)\<lparr>buf := []\<rparr>))"

text \<open>
  Modelled from the spec: steps 3 to 5 of the Transport's emit, on one formatted line.
  The separator is the newline that ends every buffered line. Step 3: when the line
  with its separator would take the buffer over the maximum packet size and the buffer
  is non-empty, the buffer is flushed first. Step 4: a line that alone (an empty buffer
  holding only this line and its separator) exceeds the maximum is written on its own,
  without buffering. Step 5: otherwise the line and its separator are appended.
\<close>

definition conn_emit :: "conn \<Rightarrow> string \<Rightarrow> conn" where
  "conn_emit c line =
     (if closed c then c
      else
        (let l = line @ [CHR 0x0A];
             c1 = (if int (length (buf c) + length l) > maxPacketSize c \<and> buf c \<noteq> []
                   then conn_flush c 0 else c)
         in if int (length l) > maxPacketSize c
            then (let (c2, err) = w_Write c1 l in handleError c2 err)
            else c1\<lparr>buf := buf c1 @ l\<rparr>))"

text \<open>
  Modelled from the spec: step 1 of emit and the wire format,
  \<^verbatim>\<open><prefix><bucket>:<value>|<type>[|@<rate>][<tag-suffix>]\<close>, with the InfluxDB tags
  spliced after the bucket name and the Datadog tags at the end of the line. The value
  arrives as its text; the text of the rate (written only for a rate below 1) comes
  from \<open>fr\<close>, since the spec fixes no rendering of numbers.
\<close>

definition wire_line ::
  "TagFormat \<Rightarrow> string \<Rightarrow> string \<Rightarrow> string \<Rightarrow> string \<Rightarrow> string \<Rightarrow> string \<Rightarrow> string" where
  "wire_line tf prefix bucket v typ rate_suffix tgs =
     (if tf = InfluxDB then prefix @ bucket @ tgs @ '':'' @ v @ ''|'' @ typ @ rate_suffix
      else prefix @ bucket @ '':'' @ v @ ''|'' @ typ @ rate_suffix @ tgs)"

text \<open>
  Modelled from the spec: \<^verbatim>\<open>conn.metric\<close>, \<^verbatim>\<open>conn.gauge\<close> and
  \<^verbatim>\<open>conn.unique\<close>, the calls the Client makes on the Transport. Each formats
  its line and emits it; a gauge has the type code \<^verbatim>\<open>g\<close>, a unique value
  \<^verbatim>\<open>s\<close>, and neither carries a rate.
\<close>

definition conn_metric ::
  "(real \<Rightarrow> string) \<Rightarrow> conn \<Rightarrow> string \<Rightarrow> string \<Rightarrow> string \<Rightarrow> string \<Rightarrow> real \<Rightarrow> string \<Rightarrow> conn" where
  "conn_metric fr c prefix bucket n typ rate tgs =
     conn_emit c
       (wire_line (conn_tagFormat c) prefix bucket n typ
          (if rate < 1 then ''|@'' @ fr rate else []) tgs)"

definition conn_gauge :: "conn \<Rightarrow> string \<Rightarrow> string \<Rightarrow> string \<Rightarrow> string \<Rightarrow> conn" where
  "conn_gauge c prefix bucket v tgs =
     conn_emit c (wire_line (conn_tagFormat c) prefix bucket v ''g'' [] tgs)"

definition conn_unique :: "conn \<Rightarrow> string \<Rightarrow> string \<Rightarrow> string \<Rightarrow> string \<Rightarrow> conn" where
  "conn_unique c prefix bucket v tgs =
     conn_emit c (wire_line (conn_tagFormat c) prefix bucket v ''s'' [] tgs)"

section \<open>Configuration and options\<close>

record clientConfig =
  Muted :: bool
  Rate :: real
  Prefix :: string
  Tags :: "addr option"

record connConfig =
  Addr :: string
  ErrorHandler :: "handler option"
  FlushPeriod :: int
  MaxPacketSize :: int
  Network :: string
  TagFormat :: TagFormat

record config =
  Conn :: connConfig
  Client :: clientConfig

text \<open>
  Modelled from the spec: \<^verbatim>\<open>newConn\<close>. \<open>opened\<close> is the outcome of opening the
  endpoint. On success the Transport starts open, with an empty buffer, and takes the
  maximum packet size, the tag format and the error handler from the configuration; on
  failure the error is returned and no Transport is made.
\<close>

definition newConn ::
  "error option \<Rightarrow> connConfig \<Rightarrow> bool \<Rightarrow> store \<Rightarrow> (addr option \<times> error option) \<times> store" where
  "newConn opened conf mt st =
     (case opened of
        Some e \<Rightarrow> ((None, Some e), st)
      | None \<Rightarrow>
          (let c = \<lparr>buf = [], closed = False, maxPacketSize = MaxPacketSize conf,
                    conn_tagFormat = TagFormat conf, errorHandler = ErrorHandler conf,
                    reported = [], w = \<lparr>sent = [], fail = None\<rparr>\<rparr>
           in ((Some (nxt st), None),
               st\<lparr>connH := (connH st)(nxt st \<mapsto> c), nxt := Suc (nxt st)\<rparr>)))"

text \<open>
  An \<^verbatim>\<open>Option\<close> is a closure over the configuration. The model names each closure by
  the function that builds it and the arguments it captured; \<open>apply_option\<close> is the
  closure's body. \<^verbatim>\<open>CommonTags\<close> checks its arguments before it builds the closure,
  so it is a function into \<open>error + Option\<close>; the other builders cannot fail and are
  the constructors themselves. A duration is its number of nanoseconds.
\<close>

datatype Option =
    AddressOpt string
  | ErrorHandlerOpt "handler option"
  | FlushPeriodOpt int
  | MaxPacketSizeOpt int
  | NetworkOpt string
  | MuteOpt bool
  | SampleRateOpt real
  | PrefixOpt string
  | TagsFormatOpt TagFormat
  | CommonTagsOpt "string list"

definition CommonTags :: "string list \<Rightarrow> error + Option" where
  "CommonTags tgs =
     (if length tgs mod 2 \<noteq> 0 then
        Inl (Panic ''statsd: Tags only accepts an even number of arguments'')
      else Inr (CommonTagsOpt tgs))"

fun apply_option :: "Option \<Rightarrow> config \<Rightarrow> store \<Rightarrow> error + (config \<times> store)" where
  "apply_option (AddressOpt addr) c st = Inr (c\<lparr>Conn := (Conn c)\<lparr>Addr := addr\<rparr>\<rparr>, st)"
| "apply_option (ErrorHandlerOpt h) c st = Inr (c\<lparr>Conn := (Conn c)\<lparr>ErrorHandler := h\<rparr>\<rparr>, st)"
| "apply_option (FlushPeriodOpt p) c st = Inr (c\<lparr>Conn := (Conn c)\<lparr>FlushPeriod := p\<rparr>\<rparr>, st)"
| "apply_option (MaxPacketSizeOpt n) c st =
     Inr (c\<lparr>Conn := (Conn c)\<lparr>MaxPacketSize := n\<rparr>\<rparr>, st)"
| "apply_option (NetworkOpt network) c st =
     Inr (c\<lparr>Conn := (Conn c)\<lparr>Network := network\<rparr>\<rparr>, st)"
| "apply_option (MuteOpt b) c st = Inr (c\<lparr>Client := (Client c)\<lparr>Muted := b\<rparr>\<rparr>, st)"
| "apply_option (SampleRateOpt r) c st = Inr (c\<lparr>Client := (Client c)\<lparr>Rate := r\<rparr>\<rparr>, st)"
| "apply_option (PrefixOpt p) c st =
     Inr (c\<lparr>Client := (Client c)\<lparr>Prefix := Prefix (Client c) @ TrimSuffix p ''.'' @ ''.''\<rparr>\<rparr>, st)"
| "apply_option (TagsFormatOpt tf) c st =
     Inr (c\<lparr>Conn := (Conn c)\<lparr>TagFormat := tf\<rparr>\<rparr>, st)"
| "apply_option (CommonTagsOpt tgs) c st =
     (if length tgs = 0 then Inr (c, st)
      else
        (case newTags tgs of
           Inl e \<Rightarrow> Inl e
         | Inr newCommonTags \<Rightarrow>
             (case Tags (Client c) of
                None \<Rightarrow> Inl NilDereference
              | Some a \<Rightarrow>
                  (case tagsH st a of
                     None \<Rightarrow> Inl NilDereference
                   | Some this \<Rightarrow>
                       Inr (c, st\<lparr>tagsH := (tagsH st)(a \<mapsto> append_tags this newCommonTags)\<rparr>)))))"

text \<open>The loop \<^verbatim>\<open>for _, o := range opts { o(conf) }\<close>.\<close>

fun apply_options :: "Option list \<Rightarrow> config \<Rightarrow> store \<Rightarrow> error + (config \<times> store)" where
  "apply_options [] c st = Inr (c, st)"
| "apply_options (opt # opts) c st =
     (case apply_option opt c st of
        Inl e \<Rightarrow> Inl e
      | Inr (c', st') \<Rightarrow> apply_options opts c' st')"

section \<open>The Client\<close>

text \<open>
  \<^verbatim>\<open>type Client struct\<close>. The sample rate is a \<^verbatim>\<open>float32\<close>; the model reads it as
  the real number it denotes, which agrees with Go on the two comparisons the source
  makes for every rate that is a number.
\<close>

record Client =
  conn :: "addr option"
  muted :: bool
  rate :: real
  prefix :: string
  tags :: "addr option"
  tagFormat :: TagFormat

text \<open>
  \<^verbatim>\<open>New\<close>. \<open>nc\<close> stands for the missing \<^verbatim>\<open>newConn\<close>: given the connection
  configuration and the mute flag it returns the connection pointer and the error.
  The client starts from the zero values of its fields; on an error only \<open>conn\<close> and
  \<open>muted\<close> are set.
\<close>

definition New ::
  "Option list \<Rightarrow> (connConfig \<Rightarrow> bool \<Rightarrow> store \<Rightarrow> (addr option \<times> error option) \<times> store)
     \<Rightarrow> store \<Rightarrow> error + ((Client \<times> error option) \<times> store)" where
  "New opts nc st =
     (let (t, st0) = alloc_tags emptyTags st;
          conf = \<lparr>Conn = \<lparr>Addr = '':8125'', ErrorHandler = None,
                           FlushPeriod = 100 * 1000000, MaxPacketSize = 1440,
                           Network = ''udp'', TagFormat = 0\<rparr>,
                  Client = \<lparr>Muted = False, Rate = 1, Prefix = [], Tags = Some t\<rparr>\<rparr>
      in case apply_options opts conf st0 of
           Inl e \<Rightarrow> Inl e
         | Inr (conf, st1) \<Rightarrow>
             (let ((cp, err), st2) = nc (Conn conf) (Muted (Client conf)) st1;
                  c = \<lparr>conn = cp, muted = Muted (Client conf), rate = 0, prefix = [],
                       tags = None, tagFormat = 0\<rparr>
              in case err of
                   Some e \<Rightarrow> Inr ((c\<lparr>muted := True\<rparr>, Some e), st2)
                 | None \<Rightarrow>
                     Inr ((c\<lparr>rate := Rate (Client conf), prefix := Prefix (Client conf),
                             tags := Tags (Client conf),
                             tagFormat := TagFormat (Conn conf)\<rparr>, None), st2)))"

text \<open>
  \<^verbatim>\<open>Clone\<close>. The configuration starts from the parent's rate and prefix and from the
  parent's tag pointer itself, so an option that appends tags writes into the parent's
  tag set; the copy for the clone is taken after the options have run.
\<close>

definition Clone :: "Client \<Rightarrow> Option list \<Rightarrow> store \<Rightarrow> error + (Client \<times> store)" where
  "Clone c opts st =
     (case deref (connH st) (conn c) of
        Inl e \<Rightarrow> Inl e
      | Inr cn \<Rightarrow>
          (let tf = conn_tagFormat cn;
               conf = \<lparr>Conn = \<lparr>Addr = [], ErrorHandler = None, FlushPeriod = 0,
                                MaxPacketSize = 0, Network = [], TagFormat = 0\<rparr>,
                       Client = \<lparr>Muted = False, Rate = rate c, Prefix = prefix c,
                                  Tags = tags c\<rparr>\<rparr>
           in case apply_options opts conf st of
                Inl e \<Rightarrow> Inl e
              | Inr (conf, st1) \<Rightarrow>
                  (case deref (tagsH st1) (Tags (Client conf)) of
                     Inl e \<Rightarrow> Inl e
                   | Inr t \<Rightarrow>
                       (let (t', st2) = alloc_tags (clone t) st1
                        in Inr (\<lparr>conn = conn c,
                                 muted = (muted c \<or> Muted (Client conf)),
                                 rate = Rate (Client conf),
                                 prefix = Prefix (Client conf),
                                 tags = Some t',
                                 tagFormat = tf\<rparr>, st2)))))"

text \<open>
  \<^verbatim>\<open>skip\<close>: \<open>r\<close> is the value \<^verbatim>\<open>randFloat()\<close> returns in this call. For a muted
  client the disjunction is decided before the random source is read.
\<close>

definition skip :: "Client \<Rightarrow> real \<Rightarrow> bool" where
  "skip c r \<longleftrightarrow> muted c \<or> (rate c \<noteq> 1 \<and> r > rate c)"

text \<open>A call on the client's connection, written back to the store.\<close>

definition on_conn :: "Client \<Rightarrow> store \<Rightarrow> (conn \<Rightarrow> conn) \<Rightarrow> error + store" where
  "on_conn c st f =
     (case conn c of
        None \<Rightarrow> Inl NilDereference
      | Some a \<Rightarrow>
          (case connH st a of
             None \<Rightarrow> Inl NilDereference
           | Some cn \<Rightarrow> Inr (st\<lparr>connH := (connH st)(a \<mapsto> f cn)\<rparr>)))"

text \<open>
  The metric methods. \<open>n\<close> is the text of the value; \<open>r\<close> the random draw of the
  call; \<open>fr\<close> the rendering of the rate. \<^verbatim>\<open>Count\<close>, \<^verbatim>\<open>Gauge\<close> and
  \<^verbatim>\<open>Histogram\<close> build a fresh tag set from the call's tags and append the client's
  tags to it; \<^verbatim>\<open>Timing\<close> and \<^verbatim>\<open>Unique\<close> format the client's tags.
\<close>

definition Count ::
  "(real \<Rightarrow> string) \<Rightarrow> Client \<Rightarrow> string \<Rightarrow> string \<Rightarrow> string list \<Rightarrow> real \<Rightarrow> store \<Rightarrow> error + store" where
  "Count fr c bucket n metricTags r st =
     (if skip c r then Inr st
      else
        (case newTags metricTags of
           Inl e \<Rightarrow> Inl e
         | Inr mTags \<Rightarrow>
             (case deref (tagsH st) (tags c) of
                Inl e \<Rightarrow> Inl e
              | Inr ct \<Rightarrow>
                  on_conn c st (\<lambda>cn. conn_metric fr cn (prefix c) bucket n ''c'' (rate c)
                    (format (append_tags mTags ct) (tagFormat c))))))"

definition Increment ::
  "(real \<Rightarrow> string) \<Rightarrow> Client \<Rightarrow> string \<Rightarrow> string list \<Rightarrow> real \<Rightarrow> store \<Rightarrow> error + store" where
  "Increment fr c bucket metricTags r st = Count fr c bucket ''1'' metricTags r st"

definition Gauge ::
  "Client \<Rightarrow> string \<Rightarrow> string \<Rightarrow> string list \<Rightarrow> real \<Rightarrow> store \<Rightarrow> error + store" where
  "Gauge c bucket v metricTags r st =
     (if skip c r then Inr st
      else
        (case newTags metricTags of
           Inl e \<Rightarrow> Inl e
         | Inr mTags \<Rightarrow>
             (case deref (tagsH st) (tags c) of
                Inl e \<Rightarrow> Inl e
              | Inr ct \<Rightarrow>
                  on_conn c st (\<lambda>cn. conn_gauge cn (prefix c) bucket v
                    (format (append_tags mTags ct) (tagFormat c))))))"

definition Timing ::
  "(real \<Rightarrow> string) \<Rightarrow> Client \<Rightarrow> string \<Rightarrow> string \<Rightarrow> real \<Rightarrow> store \<Rightarrow> error + store" where
  "Timing fr c bucket v r st =
     (if skip c r then Inr st
      else
        (case deref (tagsH st) (tags c) of
           Inl e \<Rightarrow> Inl e
         | Inr ct \<Rightarrow>
             on_conn c st (\<lambda>cn. conn_metric fr cn (prefix c) bucket v ''ms'' (rate c)
               (format ct (tagFormat c)))))"

definition Histogram ::
  "(real \<Rightarrow> string) \<Rightarrow> Client \<Rightarrow> string \<Rightarrow> string \<Rightarrow> string list \<Rightarrow> real \<Rightarrow> store \<Rightarrow> error + store" where
  "Histogram fr c bucket v metricTags r st =
     (if skip c r then Inr st
      else
        (case newTags metricTags of
           Inl e \<Rightarrow> Inl e
         | Inr mTags \<Rightarrow>
             (case deref (tagsH st) (tags c) of
                Inl e \<Rightarrow> Inl e
              | Inr ct \<Rightarrow>
                  on_conn c st (\<lambda>cn. conn_metric fr cn (prefix c) bucket v ''h'' (rate c)
                    (format (append_tags mTags ct) (tagFormat c))))))"

definition Unique :: "Client \<Rightarrow> string \<Rightarrow> string \<Rightarrow> real \<Rightarrow> store \<Rightarrow> error + store" where
  "Unique c bucket v r st =
     (if skip c r then Inr st
      else
        (case deref (tagsH st) (tags c) of
           Inl e \<Rightarrow> Inl e
         | Inr ct \<Rightarrow>
             on_conn c st (\<lambda>cn. conn_unique cn (prefix c) bucket v (format ct (tagFormat c)))))"

text \<open>\<^verbatim>\<open>Flush\<close> and \<^verbatim>\<open>Close\<close>: both return at once on a muted client.\<close>

definition Flush :: "Client \<Rightarrow> store \<Rightarrow> error + store" where
  "Flush c st = (if muted c then Inr st else on_conn c st (\<lambda>cn. conn_flush cn 0))"

definition Close :: "Client \<Rightarrow> store \<Rightarrow> error + store" where
  "Close c st =
     (if muted c then Inr st
      else on_conn c st
             (\<lambda>cn. let cn1 = conn_flush cn 0;
                       (cn2, err) = w_Close cn1
                   in (handleError cn2 err)\<lparr>closed := True\<rparr>))"

text \<open>
  The methods of a client as data, so that sequences of calls can be run. Each call
  carries its arguments; \<open>exec\<close> is given the random draw of the call. The timing
  helper (\<^verbatim>\<open>NewTiming\<close>, \<^verbatim>\<open>Send\<close>) reads the clock and ends in \<^verbatim>\<open>Timing\<close>; it is
  covered by \<open>TimingCall\<close> with the elapsed time as the value.
\<close>

datatype call =
    CountCall string string "string list"
  | IncrementCall string "string list"
  | GaugeCall string string "string list"
  | TimingCall string string
  | HistogramCall string string "string list"
  | UniqueCall string string
  | FlushCall
  | CloseCall

fun exec :: "(real \<Rightarrow> string) \<Rightarrow> Client \<Rightarrow> call \<Rightarrow> real \<Rightarrow> store \<Rightarrow> error + store" where
  "exec fr c (CountCall bucket n mt) r st = Count fr c bucket n mt r st"
| "exec fr c (IncrementCall bucket mt) r st = Increment fr c bucket mt r st"
| "exec fr c (GaugeCall bucket v mt) r st = Gauge c bucket v mt r st"
| "exec fr c (TimingCall bucket v) r st = Timing fr c bucket v r st"
| "exec fr c (HistogramCall bucket v mt) r st = Histogram fr c bucket v mt r st"
| "exec fr c (UniqueCall bucket v) r st = Unique c bucket v r st"
| "exec fr c FlushCall r st = Flush c st"
| "exec fr c CloseCall r st = Close c st"


text \<open>
  A sequence of calls, each on its own client with its own random draw. It stops at the
  first panic.
\<close>

fun run :: "(real \<Rightarrow> string) \<Rightarrow> (Client \<times> call \<times> real) list \<Rightarrow> store \<Rightarrow> error + store" where
  "run fr [] st = Inr st"
| "run fr ((c, cl, r) # xs) st =
     (case exec fr c cl r st of Inl e \<Rightarrow> Inl e | Inr st' \<Rightarrow> run fr xs st')"

text \<open>The packets written so far on the connection at address \<open>a\<close>.\<close>

definition packets :: "store \<Rightarrow> addr \<Rightarrow> string list" where
  "packets st a = (case connH st a of None \<Rightarrow> [] | Some cn \<Rightarrow> sent (w cn))"

section \<open>Notions used in the statements\<close>

text \<open>
  Joining strings with a comma between neighbours and none at either end: the shape
  \<^verbatim>\<open>k1:v1,k2:v2,...\<close> of the specification.
\<close>

fun join_comma :: "string list \<Rightarrow> string" where
  "join_comma [] = []"
| "join_comma [x] = x"
| "join_comma (x # y # ys) = x @ '','' @ join_comma (y # ys)"

text \<open>A string that ends with one dot and not with two.\<close>

definition one_trailing_dot :: "string \<Rightarrow> bool" where
  "one_trailing_dot s \<longleftrightarrow> HasSuffix s ''.'' \<and> \<not> HasSuffix s ''..''"

text \<open>
  The arguments of the \<^verbatim>\<open>Mute\<close> options and of the \<^verbatim>\<open>Prefix\<close> options of an
  option list, in the order of the list. The value the \<^verbatim>\<open>Mute\<close> options give is
  that of the last one, and false when there is none.
\<close>

fun mute_args :: "Option list \<Rightarrow> bool list" where
  "mute_args [] = []"
| "mute_args (MuteOpt b # opts) = b # mute_args opts"
| "mute_args (_ # opts) = mute_args opts"

fun prefix_args :: "Option list \<Rightarrow> string list" where
  "prefix_args [] = []"
| "prefix_args (PrefixOpt p # opts) = p # prefix_args opts"
| "prefix_args (_ # opts) = prefix_args opts"

definition mute_value :: "Option list \<Rightarrow> bool" where
  "mute_value opts \<longleftrightarrow> mute_args opts \<noteq> [] \<and> last (mute_args opts)"

text \<open>
  An option as the builders of the source return it: \<^verbatim>\<open>CommonTags\<close> returns no
  closure over an odd number of strings.
\<close>

fun built :: "Option \<Rightarrow> bool" where
  "built (CommonTagsOpt tgs) \<longleftrightarrow> CommonTags tgs = Inr (CommonTagsOpt tgs)"
| "built _ \<longleftrightarrow> True"

text \<open>
  A store to run examples in: the client that
  \<^verbatim>\<open>New(Prefix("app"), TagsFormat(Datadog), CommonTags("env", "prod"))\<close> returns on
  an empty store when the endpoint opens, and the store it leaves.
\<close>

definition empty_store :: store where
  "empty_store = \<lparr>tagsH = Map.empty, connH = Map.empty, nxt = 0\<rparr>"

definition app_conn :: conn where
  "app_conn = \<lparr>buf = [], closed = False, maxPacketSize = 1440, conn_tagFormat = Datadog,
                errorHandler = None, reported = [], w = \<lparr>sent = [], fail = None\<rparr>\<rparr>"

definition app_store :: store where
  "app_store =
     \<lparr>tagsH = [0 \<mapsto> \<lparr>kvs = [''env'' \<mapsto> ''prod''], keys = [''env'']\<rparr>],
      connH = [1 \<mapsto> app_conn], nxt = 2\<rparr>"

definition app_client :: Client where
  "app_client = \<lparr>conn = Some 1, muted = False, rate = 1, prefix = ''app.'',
                  tags = Some 0, tagFormat = Datadog\<rparr>"




section \<open>Strings and tag sets: basic facts\<close>

lemma HasSuffix_append [simp]: "HasSuffix (s @ t) t"
  by (simp add: HasSuffix_def)

lemma TrimSuffix_append [simp]: "TrimSuffix (s @ t) t = s"
  by (simp add: TrimSuffix_def)

lemma remdups_snoc:
  "remdups (xs @ [k]) = filter (\<lambda>x. x \<noteq> k) (remdups xs) @ [k]"
  by (induction xs) auto

lemma first_occurrences_Cons:
  "rev (remdups (rev (k # xs))) = k # rev (remdups (rev (filter (\<lambda>x. x \<noteq> k) xs)))"
  by (simp add: remdups_snoc remdups_filter rev_filter)

lemma append_loop_keys:
  "keys (append_loop this m ks) =
     keys this @ rev (remdups (rev (filter (\<lambda>k. kvs this k = None) ks)))"
proof (induction ks arbitrary: this)
  case Nil
  then show ?case by simp
next
  case (Cons k ks)
  show ?case
  proof (cases "kvs this k = None")
    case True
    let ?this' = "this\<lparr>kvs := (kvs this)(k \<mapsto> index m k), keys := keys this @ [k]\<rparr>"
    have f: "filter (\<lambda>x. kvs ?this' x = None) ks =
             filter (\<lambda>x. x \<noteq> k) (filter (\<lambda>x. kvs this x = None) ks)"
      by (induction ks) auto
    have "keys (append_loop this m (k # ks)) = keys (append_loop ?this' m ks)"
      using True by simp
    also have "\<dots> = keys ?this' @ rev (remdups (rev (filter (\<lambda>x. kvs ?this' x = None) ks)))"
      by (rule Cons.IH)
    also have "\<dots> = keys this @ rev (remdups (rev (k # filter (\<lambda>x. kvs this x = None) ks)))"
      unfolding f first_occurrences_Cons by simp
    finally show ?thesis using True by simp
  next
    case False
    then obtain v where "kvs this k = Some v" by auto
    then show ?thesis using Cons.IH [of this] by simp
  qed
qed

lemma append_loop_kvs:
  "kvs (append_loop this m ks) k =
     (case kvs this k of Some v \<Rightarrow> Some v
      | None \<Rightarrow> if k \<in> set ks then Some (index m k) else None)"
  by (induction ks arbitrary: this) (auto split: option.splits)

lemma rev_remdups_rev_distinct: "distinct xs \<Longrightarrow> rev (remdups (rev xs)) = xs"
  by (simp add: distinct_remdups_id)

lemma format_influx_eq:
  "format_influx m ks b = b @ concat (map (\<lambda>k. '','' @ k @ ''='' @ index m k) ks)"
  by (induction ks arbitrary: b) auto

lemma format_datadog_eq:
  "format_datadog m ks b = b @ concat (map (\<lambda>k. k @ '':'' @ index m k @ '','') ks)"
  by (induction ks arbitrary: b) auto

lemma concat_comma_join:
  "ks \<noteq> [] \<Longrightarrow> concat (map (\<lambda>k. f k @ '','') ks) = join_comma (map f ks) @ '',''"
  by (induction ks rule: induct_list012) auto

lemma newTags_loop_ok:
  "2 * n \<le> length tgs \<Longrightarrow> length tks = n \<Longrightarrow>
   \<exists>t. newTags_loop tgs n i m tks = Inr t"
proof (induction tgs n i m tks rule: newTags_loop.induct)
  case (1 tgs n i m tks)
  show ?case
  proof (cases "i < n")
    case True
    then have g: "1 + push_bit 1 i < length tgs \<and> i < length tks"
      using "1.prems" by (simp add: push_bit_eq_mult)
    show ?thesis
      using True g "1.IH" [OF True g refl refl] "1.prems"
      by (subst newTags_loop.simps) (simp add: Let_def fun_upd_def)
  next
    case False
    then show ?thesis by (subst newTags_loop.simps) simp
  qed
qed

lemma newTags_odd:
  "odd (length tgs) \<Longrightarrow>
   newTags tgs = Inl (Panic ''statsd: newTags only accepts an even number of arguments'')"
  by (simp add: newTags_def and_one_eq odd_iff_mod_2_eq_one)

lemma newTags_even: "even (length tgs) \<Longrightarrow> \<exists>t. newTags tgs = Inr t"
  using newTags_loop_ok
    [of "drop_bit 1 (length tgs)" tgs "replicate (drop_bit 1 (length tgs)) []" 0 Map.empty]
  by (auto simp add: newTags_def and_one_eq Let_def drop_bit_eq_div)

lemma InfluxDB_neq_Datadog [simp]: "InfluxDB \<noteq> Datadog" "Datadog \<noteq> InfluxDB"
  by (simp_all add: InfluxDB_def Datadog_def)

lemma newTags_example:
  "newTags [''a'', ''1'', ''b'', ''2''] =
     Inr \<lparr>kvs = [''a'' \<mapsto> ''1'', ''b'' \<mapsto> ''2''], keys = [''a'', ''b'']\<rparr>"
  by (simp add: newTags_def newTags_loop.simps Let_def drop_bit_eq_div push_bit_eq_mult)

section \<open>Merging tag sets\<close>

text \<open>
  Claim C2. Merging a tag set \<open>t\<close> into a tag set \<open>r\<close> (\<^verbatim>\<open>r.append(t)\<close>) appends to
  \<open>r\<close>'s keys exactly the keys of \<open>t\<close> that \<open>r\<close> does not hold, in \<open>t\<close>'s order (a key
  that \<open>t\<close> lists twice is appended once, at its first place), and leaves the value of
  every key of \<open>r\<close> as it was: the first writer wins. A key that is appended gets
  \<open>t\<close>'s value. Whether \<open>r\<close> holds a key is decided on \<open>r\<close>'s map, as the source does.
\<close>

theorem append_tags_merge:
  "keys (append_tags r t) =
     keys r @ rev (remdups (rev (filter (\<lambda>k. kvs r k = None) (keys t))))
   \<and> (distinct (keys t) \<longrightarrow>
        keys (append_tags r t) = keys r @ filter (\<lambda>k. kvs r k = None) (keys t))
   \<and> kvs (append_tags r t) =
        (\<lambda>k. case kvs r k of
                Some v \<Rightarrow> Some v
              | None \<Rightarrow> if k \<in> set (keys t) then Some (index (kvs t) k) else None)"
proof -
  have k: "keys (append_tags r t) =
     keys r @ rev (remdups (rev (filter (\<lambda>k. kvs r k = None) (keys t))))"
    by (simp add: append_tags_def append_loop_keys)
  have d: "keys (append_tags r t) = keys r @ filter (\<lambda>k. kvs r k = None) (keys t)"
    if "distinct (keys t)"
    using that k by (simp add: rev_remdups_rev_distinct)
  have v: "kvs (append_tags r t) =
        (\<lambda>k. case kvs r k of
                Some v \<Rightarrow> Some v
              | None \<Rightarrow> if k \<in> set (keys t) then Some (index (kvs t) k) else None)"
    by (rule ext) (simp add: append_tags_def append_loop_kvs)
  from k d v show ?thesis by blast
qed

text \<open>
  The example of the specification: merging \<open>{a:2, b:3}\<close> into \<open>{a:1}\<close> gives
  \<open>{a:1, b:3}\<close> with the keys in the order \<open>a\<close>, \<open>b\<close>.
\<close>

theorem append_tags_merge_witness:
  "distinct (keys \<lparr>kvs = [''a'' \<mapsto> ''2'', ''b'' \<mapsto> ''3''], keys = [''a'', ''b'']\<rparr>)
   \<and> keys (append_tags \<lparr>kvs = [''a'' \<mapsto> ''1''], keys = [''a'']\<rparr>
             \<lparr>kvs = [''a'' \<mapsto> ''2'', ''b'' \<mapsto> ''3''], keys = [''a'', ''b'']\<rparr>) = [''a'', ''b'']
   \<and> kvs (append_tags \<lparr>kvs = [''a'' \<mapsto> ''1''], keys = [''a'']\<rparr>
             \<lparr>kvs = [''a'' \<mapsto> ''2'', ''b'' \<mapsto> ''3''], keys = [''a'', ''b'']\<rparr>)
       = [''a'' \<mapsto> ''1'', ''b'' \<mapsto> ''3'']"
  using append_tags_merge [of "\<lparr>kvs = [''a'' \<mapsto> ''1''], keys = [''a'']\<rparr>"
      "\<lparr>kvs = [''a'' \<mapsto> ''2'', ''b'' \<mapsto> ''3''], keys = [''a'', ''b'']\<rparr>"]
  by (auto simp add: index_def fun_eq_iff)

section \<open>Formatting tag sets\<close>

text \<open>
  Claim C3. With the InfluxDB format a tag set is written \<^verbatim>\<open>,k1=v1,k2=v2,...\<close> over its
  keys in insertion order; with the Datadog format it is written \<^verbatim>\<open>|#k1:v1,k2:v2,...\<close>,
  with commas between the pairs only; a set without tags is written as the empty string
  in every format; and every format other than these two gives the empty string.
\<close>

theorem format_dialects:
  "format t InfluxDB = concat (map (\<lambda>k. '','' @ k @ ''='' @ index (kvs t) k) (keys t))
   \<and> format t Datadog =
       (if keys t = [] then []
        else ''|#'' @ join_comma (map (\<lambda>k. k @ '':'' @ index (kvs t) k) (keys t)))
   \<and> (keys t = [] \<longrightarrow> format t tf = [])
   \<and> (tf \<noteq> InfluxDB \<and> tf \<noteq> Datadog \<longrightarrow> format t tf = [])"
proof -
  have i: "format t InfluxDB = concat (map (\<lambda>k. '','' @ k @ ''='' @ index (kvs t) k) (keys t))"
    by (simp add: format_def numTags_def format_influx_eq)
  have "concat (map (\<lambda>k. (k @ '':'' @ index (kvs t) k) @ '','') (keys t)) =
        join_comma (map (\<lambda>k. k @ '':'' @ index (kvs t) k) (keys t)) @ '',''"
    if "keys t \<noteq> []"
    using that by (rule concat_comma_join)
  then have d: "format t Datadog =
       (if keys t = [] then []
        else ''|#'' @ join_comma (map (\<lambda>k. k @ '':'' @ index (kvs t) k) (keys t)))"
    using TrimSuffix_append [of "''|#'' @ join_comma (map (\<lambda>k. k @ '':'' @ index (kvs t) k) (keys t))" "'',''"]
    by (simp add: format_def numTags_def format_datadog_eq)
  have e: "keys t = [] \<longrightarrow> format t tf = []"
    by (simp add: format_def numTags_def)
  have u: "tf \<noteq> InfluxDB \<and> tf \<noteq> Datadog \<longrightarrow> format t tf = []"
    by (simp add: format_def)
  from i d e u show ?thesis by blast
qed

text \<open>
  The example of the specification, the empty set, and the unset format.
\<close>

theorem format_dialects_witness:
  "format \<lparr>kvs = [''host'' \<mapsto> ''x'', ''env'' \<mapsto> ''y''], keys = [''host'', ''env'']\<rparr> InfluxDB
     = '',host=x,env=y''
   \<and> format \<lparr>kvs = [''host'' \<mapsto> ''x'', ''env'' \<mapsto> ''y''], keys = [''host'', ''env'']\<rparr> Datadog
     = ''|#host:x,env:y''
   \<and> keys emptyTags = [] \<and> format emptyTags Datadog = [] \<and> format emptyTags InfluxDB = []
   \<and> (0::8 word) \<noteq> InfluxDB \<and> (0::8 word) \<noteq> Datadog
   \<and> format \<lparr>kvs = [''host'' \<mapsto> ''x'', ''env'' \<mapsto> ''y''], keys = [''host'', ''env'']\<rparr> 0 = []"
  using format_dialects [of "\<lparr>kvs = [''host'' \<mapsto> ''x'', ''env'' \<mapsto> ''y''], keys = [''host'', ''env'']\<rparr>" 0]
    format_dialects [of emptyTags Datadog] format_dialects [of emptyTags InfluxDB]
  by (simp add: index_def emptyTags_def InfluxDB_def Datadog_def)

section \<open>Odd argument lists\<close>

text \<open>
  Claim C8. An odd number of strings makes both \<^verbatim>\<open>newTags\<close> and \<^verbatim>\<open>CommonTags\<close> panic,
  each with its message. An even number never fails: \<^verbatim>\<open>newTags\<close> returns a tag set
  (no index of its loop leaves the slice), \<^verbatim>\<open>CommonTags\<close> returns its option, and
  applying that option to a configuration whose tag pointer is set returns too.
\<close>

theorem odd_tags_panic:
  "(odd (length tgs) \<longrightarrow>
      newTags tgs = Inl (Panic ''statsd: newTags only accepts an even number of arguments'')
      \<and> CommonTags tgs = Inl (Panic ''statsd: Tags only accepts an even number of arguments''))
   \<and> (even (length tgs) \<longrightarrow>
        (\<exists>t. newTags tgs = Inr t)
        \<and> CommonTags tgs = Inr (CommonTagsOpt tgs)
        \<and> (Tags (Client c) = Some a \<and> tagsH st a = Some ts \<longrightarrow>
             (\<exists>st'. apply_option (CommonTagsOpt tgs) c st = Inr (c, st'))))"
proof -
  have o: "newTags tgs = Inl (Panic ''statsd: newTags only accepts an even number of arguments'')
      \<and> CommonTags tgs = Inl (Panic ''statsd: Tags only accepts an even number of arguments'')"
    if "odd (length tgs)"
    using that by (simp add: newTags_odd CommonTags_def odd_iff_mod_2_eq_one)
  have e: "(\<exists>t. newTags tgs = Inr t) \<and> CommonTags tgs = Inr (CommonTagsOpt tgs)
        \<and> (Tags (Client c) = Some a \<and> tagsH st a = Some ts \<longrightarrow>
             (\<exists>st'. apply_option (CommonTagsOpt tgs) c st = Inr (c, st')))"
    if ev: "even (length tgs)"
  proof -
    from ev obtain t where t: "newTags tgs = Inr t"
      using newTags_even by blast
    have c: "CommonTags tgs = Inr (CommonTagsOpt tgs)"
      using ev by (simp add: CommonTags_def)
    from t c show ?thesis by auto
  qed
  from o e show ?thesis by blast
qed

theorem odd_tags_panic_witness:
  "odd (length [''a''])
   \<and> newTags [''a''] = Inl (Panic ''statsd: newTags only accepts an even number of arguments'')
   \<and> CommonTags [''a''] = Inl (Panic ''statsd: Tags only accepts an even number of arguments'')
   \<and> even (length [''a'', ''1''])
   \<and> (\<exists>t. newTags [''a'', ''1''] = Inr t)
   \<and> CommonTags [''a'', ''1''] = Inr (CommonTagsOpt [''a'', ''1''])
   \<and> Tags (Client \<lparr>Conn = \<lparr>Addr = [], ErrorHandler = None, FlushPeriod = 0,
                           MaxPacketSize = 0, Network = [], TagFormat = 0\<rparr>,
                    Client = \<lparr>Muted = False, Rate = 1, Prefix = [], Tags = Some 0\<rparr>\<rparr>) = Some 0
   \<and> tagsH app_store 0 = Some \<lparr>kvs = [''env'' \<mapsto> ''prod''], keys = [''env'']\<rparr>
   \<and> (\<exists>st'. apply_option (CommonTagsOpt [''a'', ''1''])
          \<lparr>Conn = \<lparr>Addr = [], ErrorHandler = None, FlushPeriod = 0,
                           MaxPacketSize = 0, Network = [], TagFormat = 0\<rparr>,
                    Client = \<lparr>Muted = False, Rate = 1, Prefix = [], Tags = Some 0\<rparr>\<rparr> app_store
        = Inr (\<lparr>Conn = \<lparr>Addr = [], ErrorHandler = None, FlushPeriod = 0,
                           MaxPacketSize = 0, Network = [], TagFormat = 0\<rparr>,
                    Client = \<lparr>Muted = False, Rate = 1, Prefix = [], Tags = Some 0\<rparr>\<rparr>, st'))"
proof -
  have s: "tagsH app_store 0 = Some \<lparr>kvs = [''env'' \<mapsto> ''prod''], keys = [''env'']\<rparr>"
    by (simp add: app_store_def)
  show ?thesis
    using odd_tags_panic [of "[''a'']"]
      odd_tags_panic [of "[''a'', ''1'']"
        "\<lparr>Conn = \<lparr>Addr = [], ErrorHandler = None, FlushPeriod = 0,
                           MaxPacketSize = 0, Network = [], TagFormat = 0\<rparr>,
                    Client = \<lparr>Muted = False, Rate = 1, Prefix = [], Tags = Some 0\<rparr>\<rparr>"
        0 app_store "\<lparr>kvs = [''env'' \<mapsto> ''prod''], keys = [''env'']\<rparr>"]
      s
    by simp
qed

section \<open>Options, construction and cloning: basic facts\<close>

lemma HasSuffix_iff: "HasSuffix s t \<longleftrightarrow> (\<exists>u. s = u @ t)"
proof
  assume "HasSuffix s t"
  then have "s = take (length s - length t) s @ t"
    by (metis HasSuffix_def append_take_drop_id)
  then show "\<exists>u. s = u @ t" ..
next
  assume "\<exists>u. s = u @ t"
  then show "HasSuffix s t" by (auto simp: HasSuffix_def)
qed

lemma TrimSuffix_cases:
  "(\<exists>u. s = u @ t \<and> TrimSuffix s t = u) \<or> (\<not> HasSuffix s t \<and> TrimSuffix s t = s)"
  by (auto simp: TrimSuffix_def HasSuffix_iff)

lemma one_trailing_dot_Prefix:
  assumes "\<not> HasSuffix p ''..''"
  shows "one_trailing_dot (TrimSuffix p ''.'' @ ''.'')"
proof -
  have a: "HasSuffix (TrimSuffix p ''.'' @ ''.'') ''.''"
    by (simp add: HasSuffix_iff)
  have b: "\<not> HasSuffix (TrimSuffix p ''.'' @ ''.'') ''..''"
  proof
    assume "HasSuffix (TrimSuffix p ''.'' @ ''.'') ''..''"
    then obtain u where u: "TrimSuffix p ''.'' @ ''.'' = u @ ''..''"
      by (auto simp: HasSuffix_iff)
    then have t: "TrimSuffix p ''.'' = u @ ''.''" by simp
    from TrimSuffix_cases [of p "''.''"] show False
    proof
      assume "\<exists>v. p = v @ ''.'' \<and> TrimSuffix p ''.'' = v"
      then have "p = u @ ''..''" using t by auto
      then show False using assms by (simp add: HasSuffix_iff)
    next
      assume "\<not> HasSuffix p ''.'' \<and> TrimSuffix p ''.'' = p"
      then show False using t by (auto simp: HasSuffix_iff)
    qed
  qed
  from a b show ?thesis by (simp add: one_trailing_dot_def)
qed

lemma apply_option_fields:
  assumes "apply_option opt cf st = Inr (cf', st')"
  shows "Muted (Client cf') = (case opt of MuteOpt b \<Rightarrow> b | _ \<Rightarrow> Muted (Client cf))"
    and "Prefix (Client cf') =
          (case opt of PrefixOpt p \<Rightarrow> Prefix (Client cf) @ TrimSuffix p ''.'' @ ''.''
           | _ \<Rightarrow> Prefix (Client cf))"
    and "Tags (Client cf') = Tags (Client cf)"
    and "connH st' = connH st"
    and "nxt st' = nxt st"
  using assms by (cases opt; auto split: if_splits sum.splits option.splits)+

lemma apply_options_Muted:
  "apply_options opts cf st = Inr (cf', st') \<Longrightarrow>
   Muted (Client cf') = (if mute_args opts = [] then Muted (Client cf) else last (mute_args opts))"
proof (induction opts arbitrary: cf st)
  case Nil
  then show ?case by simp
next
  case (Cons opt opts)
  from Cons.prems obtain cf1 st1 where
    1: "apply_option opt cf st = Inr (cf1, st1)" and 2: "apply_options opts cf1 st1 = Inr (cf', st')"
    by (auto split: sum.splits)
  show ?case
    using Cons.IH [OF 2] apply_option_fields(1) [OF 1]
    by (cases opt) auto
qed

lemma apply_options_Prefix:
  "apply_options opts cf st = Inr (cf', st') \<Longrightarrow>
   Prefix (Client cf') =
     Prefix (Client cf) @ concat (map (\<lambda>p. TrimSuffix p ''.'' @ ''.'') (prefix_args opts))"
proof (induction opts arbitrary: cf st)
  case Nil
  then show ?case by simp
next
  case (Cons opt opts)
  from Cons.prems obtain cf1 st1 where
    1: "apply_option opt cf st = Inr (cf1, st1)" and 2: "apply_options opts cf1 st1 = Inr (cf', st')"
    by (auto split: sum.splits)
  show ?case
    using Cons.IH [OF 2] apply_option_fields(2) [OF 1]
    by (cases opt) auto
qed

lemma apply_options_frame:
  "apply_options opts cf st = Inr (cf', st') \<Longrightarrow>
   Tags (Client cf') = Tags (Client cf) \<and> connH st' = connH st \<and> nxt st' = nxt st"
proof (induction opts arbitrary: cf st)
  case Nil
  then show ?case by simp
next
  case (Cons opt opts)
  from Cons.prems obtain cf1 st1 where
    1: "apply_option opt cf st = Inr (cf1, st1)" and 2: "apply_options opts cf1 st1 = Inr (cf', st')"
    by (auto split: sum.splits)
  show ?case
    using Cons.IH [OF 2] apply_option_fields(3,4,5) [OF 1] by simp
qed

lemma Clone_fields:
  assumes "Clone c opts st = Inr (cl, st')"
  shows "muted cl = (muted c \<or> mute_value opts)"
    and "prefix cl = prefix c @ concat (map (\<lambda>p. TrimSuffix p ''.'' @ ''.'') (prefix_args opts))"
    and "conn cl = conn c"
    and "connH st' = connH st"
proof -
  from assms obtain cn where cn: "deref (connH st) (conn c) = Inr cn"
    by (auto simp: Clone_def split: sum.splits)
  let ?cf = "\<lparr>Conn = \<lparr>Addr = [], ErrorHandler = None, FlushPeriod = 0,
                                MaxPacketSize = 0, Network = [], TagFormat = 0\<rparr>,
                       Client = \<lparr>Muted = False, Rate = rate c, Prefix = prefix c,
                                  Tags = tags c\<rparr>\<rparr>"
  from assms cn obtain cf' st1 where ao: "apply_options opts ?cf st = Inr (cf', st1)"
    by (auto simp: Clone_def Let_def split: sum.splits)
  from assms cn ao obtain t where t: "deref (tagsH st1) (Tags (Client cf')) = Inr t"
    by (auto simp: Clone_def Let_def split: sum.splits)
  from assms cn ao t have cl: "cl = \<lparr>conn = conn c, muted = (muted c \<or> Muted (Client cf')),
       rate = Rate (Client cf'), prefix = Prefix (Client cf'), tags = Some (nxt st1),
       tagFormat = conn_tagFormat cn\<rparr>"
    and st': "st' = snd (alloc_tags (clone t) st1)"
    by (auto simp: Clone_def Let_def alloc_tags_def split: sum.splits)
  show "muted cl = (muted c \<or> mute_value opts)"
    using cl apply_options_Muted [OF ao] by (simp add: mute_value_def)
  show "prefix cl = prefix c @ concat (map (\<lambda>p. TrimSuffix p ''.'' @ ''.'') (prefix_args opts))"
    using cl apply_options_Prefix [OF ao] by simp
  show "conn cl = conn c" using cl by simp
  show "connH st' = connH st"
    using st' apply_options_frame [OF ao] by (simp add: alloc_tags_def)
qed

lemma apply_option_built:
  assumes "built opt" "Tags (Client cf) = Some a" "tagsH st a = Some ts"
  shows "\<exists>cf' st' ts'. apply_option opt cf st = Inr (cf', st') \<and> tagsH st' a = Some ts'"
proof (cases opt)
  case (CommonTagsOpt tgs)
  then have "even (length tgs)"
    using assms(1) by (auto simp: CommonTags_def split: if_splits)
  then obtain t where "newTags tgs = Inr t" using newTags_even by blast
  then show ?thesis using CommonTagsOpt assms by auto
qed (use assms in auto)

lemma apply_options_built:
  assumes "\<forall>opt\<in>set opts. built opt" "Tags (Client cf) = Some a" "tagsH st a = Some ts"
  shows "\<exists>cf' st' ts'. apply_options opts cf st = Inr (cf', st') \<and> tagsH st' a = Some ts'"
  using assms
proof (induction opts arbitrary: cf st ts)
  case Nil
  then show ?case by simp
next
  case (Cons opt opts)
  from Cons.prems obtain cf1 st1 ts1 where
    1: "apply_option opt cf st = Inr (cf1, st1)" "tagsH st1 a = Some ts1"
    using apply_option_built [of opt cf a st ts] by auto
  have "Tags (Client cf1) = Some a"
    using apply_option_fields(3) [OF 1(1)] Cons.prems by simp
  from Cons.IH [OF _ this 1(2)] Cons.prems 1 show ?case by auto
qed

lemma New_returns:
  assumes "\<forall>opt\<in>set opts. built opt"
  shows "\<exists>c err st'. New opts nc st = Inr ((c, err), st')"
proof -
  let ?st0 = "st\<lparr>tagsH := (tagsH st)(nxt st \<mapsto> emptyTags), nxt := Suc (nxt st)\<rparr>"
  let ?cf = "\<lparr>Conn = \<lparr>Addr = '':8125'', ErrorHandler = None,
                           FlushPeriod = 100 * 1000000, MaxPacketSize = 1440,
                           Network = ''udp'', TagFormat = 0\<rparr>,
                  Client = \<lparr>Muted = False, Rate = 1, Prefix = [], Tags = Some (nxt st)\<rparr>\<rparr>"
  obtain cf' st1 where "apply_options opts ?cf ?st0 = Inr (cf', st1)"
    using apply_options_built [OF assms, of ?cf "nxt st" ?st0 emptyTags] by auto
  then show ?thesis
    by (auto simp: New_def alloc_tags_def Let_def split: prod.splits option.splits)
qed

lemma Clone_returns:
  assumes "\<forall>opt\<in>set opts. built opt"
    and "conn c = Some a" "connH st a = Some cn"
    and "tags c = Some b" "tagsH st b = Some ts"
  shows "\<exists>cl st'. Clone c opts st = Inr (cl, st')"
proof -
  let ?cf = "\<lparr>Conn = \<lparr>Addr = [], ErrorHandler = None, FlushPeriod = 0,
                                MaxPacketSize = 0, Network = [], TagFormat = 0\<rparr>,
                       Client = \<lparr>Muted = False, Rate = rate c, Prefix = prefix c,
                                  Tags = tags c\<rparr>\<rparr>"
  have "Tags (Client ?cf) = Some b" using assms(4) by simp
  from apply_options_built [OF assms(1) this assms(5)] obtain cf' st1 ts' where
    ao: "apply_options opts ?cf st = Inr (cf', st1)" and ts': "tagsH st1 b = Some ts'"
    by blast
  have "Tags (Client cf') = Some b"
    using apply_options_frame [OF ao] assms(4) by simp
  then have "deref (tagsH st1) (Tags (Client cf')) = Inr ts'"
    using ts' by (simp add: deref_def)
  then show ?thesis
    using assms(2,3) ao
    by (simp add: Clone_def deref_def Let_def alloc_tags_def)
qed

lemma New_muted:
  assumes "New opts nc st = Inr ((c, err), st')"
  shows "muted c = (mute_value opts \<or> err \<noteq> None)"
proof -
  let ?st0 = "st\<lparr>tagsH := (tagsH st)(nxt st \<mapsto> emptyTags), nxt := Suc (nxt st)\<rparr>"
  let ?cf = "\<lparr>Conn = \<lparr>Addr = '':8125'', ErrorHandler = None,
                           FlushPeriod = 100 * 1000000, MaxPacketSize = 1440,
                           Network = ''udp'', TagFormat = 0\<rparr>,
                  Client = \<lparr>Muted = False, Rate = 1, Prefix = [], Tags = Some (nxt st)\<rparr>\<rparr>"
  from assms obtain cf' st1 where ao: "apply_options opts ?cf ?st0 = Inr (cf', st1)"
    by (auto simp: New_def alloc_tags_def Let_def split: sum.splits)
  have m: "Muted (Client cf') = mute_value opts"
    using apply_options_Muted [OF ao] by (simp add: mute_value_def)
  show ?thesis
    using assms ao m
    by (auto simp: New_def alloc_tags_def Let_def split: prod.splits option.splits)
qed

lemma New_failed:
  assumes "New opts nc st = Inr ((c, Some e), st')"
  shows "muted c" and "tags c = None"
  using assms
  by (auto simp: New_def alloc_tags_def Let_def split: sum.splits prod.splits option.splits)

lemma Clone_nil_tags:
  assumes "tags c = None"
  shows "isl (Clone c opts st)"
proof (cases "Clone c opts st")
  case (Inl e)
  then show ?thesis by simp
next
  case (Inr res)
  obtain cl st' where res: "res = (cl, st')" by (cases res)
  from Inr res obtain cn where cn: "deref (connH st) (conn c) = Inr cn"
    by (auto simp: Clone_def split: sum.splits)
  let ?cf = "\<lparr>Conn = \<lparr>Addr = [], ErrorHandler = None, FlushPeriod = 0,
                                MaxPacketSize = 0, Network = [], TagFormat = 0\<rparr>,
                       Client = \<lparr>Muted = False, Rate = rate c, Prefix = prefix c,
                                  Tags = tags c\<rparr>\<rparr>"
  from Inr res cn obtain cf' st1 where ao: "apply_options opts ?cf st = Inr (cf', st1)"
    by (auto simp: Clone_def Let_def split: sum.splits)
  have "Tags (Client cf') = None"
    using apply_options_frame [OF ao] assms by simp
  then have "deref (tagsH st1) (Tags (Client cf')) = Inl NilDereference"
    by (simp add: deref_def)
  with Inr res cn ao show ?thesis
    by (simp add: Clone_def Let_def)
qed

text \<open>
  The example store is what \<^verbatim>\<open>New\<close> builds, and counting on it buffers the line of
  the specification's end-to-end example.
\<close>

lemma New_app:
  "New [PrefixOpt ''app'', TagsFormatOpt Datadog, CommonTagsOpt [''env'', ''prod'']]
     (newConn None) empty_store = Inr ((app_client, None), app_store)"
  by (simp add: New_def newConn_def empty_store_def app_client_def app_store_def app_conn_def
      alloc_tags_def emptyTags_def TrimSuffix_def HasSuffix_def Let_def
      newTags_def newTags_loop.simps drop_bit_eq_div push_bit_eq_mult append_tags_def index_def)

lemma Count_app:
  "Count fr app_client ''requests'' ''1'' [] r app_store =
     Inr (app_store\<lparr>connH := [1 \<mapsto> app_conn\<lparr>buf := ''app.requests:1|c|#env:prod'' @ [CHR 0x0A]\<rparr>]\<rparr>)"
  by (simp add: Count_def skip_def app_client_def app_store_def app_conn_def newTags_def
      deref_def on_conn_def conn_metric_def conn_emit_def wire_line_def format_def
      append_tags_def emptyTags_def numTags_def index_def TrimSuffix_def HasSuffix_def
      InfluxDB_def Datadog_def Let_def)

lemma app_client_fields:
  "conn app_client = Some 1" "\<not> muted app_client" "rate app_client = 1"
  "prefix app_client = ''app.''" "tags app_client = Some 0" "tagFormat app_client = Datadog"
  by (simp_all add: app_client_def)

section \<open>Muted clients: basic facts\<close>

lemma exec_muted: "muted c \<Longrightarrow> exec fr c cl r st = Inr st"
  by (cases cl)
    (simp_all add: Count_def Increment_def Gauge_def Timing_def Histogram_def Unique_def
      Flush_def Close_def skip_def)

lemma run_muted: "\<forall>x\<in>set xs. muted (fst x) \<Longrightarrow> run fr xs st = Inr st"
  by (induction xs) (auto simp: exec_muted)

section \<open>Cloning and the mute flag\<close>

lemma Clone_app_mute:
  "Clone app_client [MuteOpt True] app_store =
     Inr (app_client\<lparr>muted := True, tags := Some 2\<rparr>,
          app_store\<lparr>tagsH := (tagsH app_store)
                      (2 \<mapsto> \<lparr>kvs = [''env'' \<mapsto> ''prod''], keys = [''env'']\<rparr>),
                    nxt := 3\<rparr>)"
  by (simp add: Clone_def deref_def app_client_def app_store_def app_conn_def Let_def
      alloc_tags_def clone_def numTags_def index_def)

lemma Clone_app_unmute:
  "Clone (app_client\<lparr>muted := True\<rparr>) [MuteOpt False] app_store =
     Inr (app_client\<lparr>muted := True, tags := Some 2\<rparr>,
          app_store\<lparr>tagsH := (tagsH app_store)
                      (2 \<mapsto> \<lparr>kvs = [''env'' \<mapsto> ''prod''], keys = [''env'']\<rparr>),
                    nxt := 3\<rparr>)"
  by (simp add: Clone_def deref_def app_client_def app_store_def app_conn_def Let_def
      alloc_tags_def clone_def numTags_def index_def)

lemma Clone_app_unmute_again:
  "Clone (app_client\<lparr>muted := True, tags := Some 2\<rparr>) [MuteOpt False]
     (app_store\<lparr>tagsH := (tagsH app_store)
                      (2 \<mapsto> \<lparr>kvs = [''env'' \<mapsto> ''prod''], keys = [''env'']\<rparr>),
                    nxt := 3\<rparr>) =
     Inr (app_client\<lparr>muted := True, tags := Some 3\<rparr>,
          app_store\<lparr>tagsH := (tagsH app_store)
                      (2 \<mapsto> \<lparr>kvs = [''env'' \<mapsto> ''prod''], keys = [''env'']\<rparr>,
                       3 \<mapsto> \<lparr>kvs = [''env'' \<mapsto> ''prod''], keys = [''env'']\<rparr>),
                    nxt := 4\<rparr>)"
  by (simp add: Clone_def deref_def app_client_def app_store_def app_conn_def Let_def
      alloc_tags_def clone_def numTags_def index_def)

text \<open>
  Claim C5. Whenever \<^verbatim>\<open>c.Clone(opts...)\<close> returns a clone, the clone is muted exactly
  when \<open>c\<close> is muted or the \<^verbatim>\<open>Mute\<close> options give true (the last one decides; none
  gives false). So a clone of a muted client is muted, and so is a clone of that clone,
  whatever the options. A muted client skips every metric call: the call returns the
  store as it was, without reading the connection.
\<close>

theorem Clone_muted:
  assumes "Clone c opts st = Inr (cl, st')"
  shows "muted cl = (muted c \<or> mute_value opts)
     \<and> (muted c \<longrightarrow> muted cl)
     \<and> (\<forall>opts2 s cl2 s2. muted c \<longrightarrow> Clone cl opts2 s = Inr (cl2, s2) \<longrightarrow> muted cl2)
     \<and> (muted cl \<longrightarrow> skip cl r \<and> exec fr cl call r s = Inr s)"
proof -
  have m: "muted cl = (muted c \<or> mute_value opts)"
    using Clone_fields(1) [OF assms] .
  have cc: "muted cl2" if "muted c" and "Clone cl opts2 s = Inr (cl2, s2)" for opts2 s cl2 s2
    using that m Clone_fields(1) [OF that(2)] by simp
  have sk: "skip cl r \<and> exec fr cl call r s = Inr s" if "muted cl"
    using that by (simp add: skip_def exec_muted)
  from m cc sk show ?thesis by blast
qed

theorem Clone_muted_witness:
  "Clone app_client [MuteOpt True] app_store =
     Inr (app_client\<lparr>muted := True, tags := Some 2\<rparr>,
          app_store\<lparr>tagsH := (tagsH app_store)
                      (2 \<mapsto> \<lparr>kvs = [''env'' \<mapsto> ''prod''], keys = [''env'']\<rparr>),
                    nxt := 3\<rparr>)
   \<and> \<not> muted app_client \<and> mute_value [MuteOpt True]
   \<and> muted (app_client\<lparr>muted := True, tags := Some 2\<rparr>)
   \<and> skip (app_client\<lparr>muted := True, tags := Some 2\<rparr>) 0
   \<and> exec (\<lambda>x. []) (app_client\<lparr>muted := True, tags := Some 2\<rparr>)
        (CountCall ''requests'' ''1'' []) 0 app_store = Inr app_store
   \<and> Clone (app_client\<lparr>muted := True\<rparr>) [MuteOpt False] app_store =
     Inr (app_client\<lparr>muted := True, tags := Some 2\<rparr>,
          app_store\<lparr>tagsH := (tagsH app_store)
                      (2 \<mapsto> \<lparr>kvs = [''env'' \<mapsto> ''prod''], keys = [''env'']\<rparr>),
                    nxt := 3\<rparr>)
   \<and> muted (app_client\<lparr>muted := True\<rparr>) \<and> \<not> mute_value [MuteOpt False]
   \<and> Clone (app_client\<lparr>muted := True, tags := Some 2\<rparr>) [MuteOpt False]
     (app_store\<lparr>tagsH := (tagsH app_store)
                      (2 \<mapsto> \<lparr>kvs = [''env'' \<mapsto> ''prod''], keys = [''env'']\<rparr>),
                    nxt := 3\<rparr>) =
     Inr (app_client\<lparr>muted := True, tags := Some 3\<rparr>,
          app_store\<lparr>tagsH := (tagsH app_store)
                      (2 \<mapsto> \<lparr>kvs = [''env'' \<mapsto> ''prod''], keys = [''env'']\<rparr>,
                       3 \<mapsto> \<lparr>kvs = [''env'' \<mapsto> ''prod''], keys = [''env'']\<rparr>),
                    nxt := 4\<rparr>)
   \<and> muted (app_client\<lparr>muted := True, tags := Some 3\<rparr>)"
  using Clone_muted [OF Clone_app_mute, of 0 "\<lambda>x. []" "CountCall ''requests'' ''1'' []" app_store]
    Clone_muted [OF Clone_app_unmute, of 0 "\<lambda>x. []" "CountCall ''requests'' ''1'' []" app_store]
    Clone_app_mute Clone_app_unmute Clone_app_unmute_again
  by (simp add: mute_value_def app_client_fields)

section \<open>Cloning and the prefix\<close>

text \<open>
  Claim C9, as amended. Whenever \<^verbatim>\<open>c.Clone(opts...)\<close> returns a clone, the clone's
  prefix is \<open>c\<close>'s prefix followed, for each \<^verbatim>\<open>Prefix(p)\<close> option in order, by \<open>p\<close>
  with one trailing dot removed if it has one and one dot appended. With no
  \<^verbatim>\<open>Prefix\<close> option the clone keeps \<open>c\<close>'s prefix. With one option \<^verbatim>\<open>Prefix(p)\<close> the
  part added ends with exactly one dot whenever \<open>p\<close> does not end with two dots.
\<close>

theorem Clone_prefix:
  assumes "Clone c opts st = Inr (cl, st')"
  shows "prefix cl = prefix c @ concat (map (\<lambda>p. TrimSuffix p ''.'' @ ''.'') (prefix_args opts))
     \<and> (prefix_args opts = [] \<longrightarrow> prefix cl = prefix c)
     \<and> (\<forall>p. prefix_args opts = [p] \<longrightarrow>
           prefix cl = prefix c @ TrimSuffix p ''.'' @ ''.''
           \<and> (\<not> HasSuffix p ''..'' \<longrightarrow> one_trailing_dot (TrimSuffix p ''.'' @ ''.'')))"
  using Clone_fields(2) [OF assms] one_trailing_dot_Prefix by auto

lemma Clone_app_prefix:
  "Clone app_client [PrefixOpt ''db''] app_store =
     Inr (app_client\<lparr>prefix := ''app.db.'', tags := Some 2\<rparr>,
          app_store\<lparr>tagsH := (tagsH app_store)
                      (2 \<mapsto> \<lparr>kvs = [''env'' \<mapsto> ''prod''], keys = [''env'']\<rparr>),
                    nxt := 3\<rparr>)"
  by (simp add: Clone_def deref_def app_client_def app_store_def app_conn_def Let_def
      alloc_tags_def clone_def numTags_def index_def TrimSuffix_def HasSuffix_def)

lemma Clone_app_plain:
  "Clone app_client [SampleRateOpt (1 / 2)] app_store =
     Inr (app_client\<lparr>rate := 1 / 2, tags := Some 2\<rparr>,
          app_store\<lparr>tagsH := (tagsH app_store)
                      (2 \<mapsto> \<lparr>kvs = [''env'' \<mapsto> ''prod''], keys = [''env'']\<rparr>),
                    nxt := 3\<rparr>)"
  by (simp add: Clone_def deref_def app_client_def app_store_def app_conn_def Let_def
      alloc_tags_def clone_def numTags_def index_def)

theorem Clone_prefix_witness:
  "Clone app_client [PrefixOpt ''db''] app_store =
     Inr (app_client\<lparr>prefix := ''app.db.'', tags := Some 2\<rparr>,
          app_store\<lparr>tagsH := (tagsH app_store)
                      (2 \<mapsto> \<lparr>kvs = [''env'' \<mapsto> ''prod''], keys = [''env'']\<rparr>),
                    nxt := 3\<rparr>)
   \<and> prefix_args [PrefixOpt ''db''] = [''db'']
   \<and> \<not> HasSuffix ''db'' ''..''
   \<and> prefix (app_client\<lparr>prefix := ''app.db.'', tags := Some 2\<rparr>)
       = prefix app_client @ TrimSuffix ''db'' ''.'' @ ''.''
   \<and> one_trailing_dot (TrimSuffix ''db'' ''.'' @ ''.'')
   \<and> Clone app_client [SampleRateOpt (1 / 2)] app_store =
     Inr (app_client\<lparr>rate := 1 / 2, tags := Some 2\<rparr>,
          app_store\<lparr>tagsH := (tagsH app_store)
                      (2 \<mapsto> \<lparr>kvs = [''env'' \<mapsto> ''prod''], keys = [''env'']\<rparr>),
                    nxt := 3\<rparr>)
   \<and> prefix_args [SampleRateOpt (1 / 2)] = []
   \<and> prefix (app_client\<lparr>rate := 1 / 2, tags := Some 2\<rparr>) = prefix app_client"
  using Clone_prefix [OF Clone_app_prefix] Clone_prefix [OF Clone_app_plain]
    Clone_app_prefix Clone_app_plain
  by (simp add: HasSuffix_def)

text \<open>
  Claim C9 as stated fails: \<^verbatim>\<open>Prefix("db..")\<close> on a clone of the client with prefix
  \<^verbatim>\<open>app.\<close> gives the prefix \<^verbatim>\<open>app.db..\<close>, which ends with two dots, as does the part
  added to the parent's prefix.
\<close>

theorem Clone_prefix_two_dots:
  "Clone app_client [PrefixOpt ''db..''] app_store =
     Inr (app_client\<lparr>prefix := ''app.db..'', tags := Some 2\<rparr>,
          app_store\<lparr>tagsH := (tagsH app_store)
                      (2 \<mapsto> \<lparr>kvs = [''env'' \<mapsto> ''prod''], keys = [''env'']\<rparr>),
                    nxt := 3\<rparr>)
   \<and> prefix app_client = ''app.''
   \<and> \<not> one_trailing_dot ''db..''
   \<and> \<not> one_trailing_dot ''app.db..''"
  by (simp add: Clone_def deref_def app_client_def app_store_def app_conn_def Let_def
      alloc_tags_def clone_def numTags_def index_def TrimSuffix_def HasSuffix_def
      one_trailing_dot_def)

section \<open>Cloning and the parent's tags\<close>

text \<open>
  Claim C10. \<^verbatim>\<open>Clone\<close> hands the parent's tag pointer to the options, and
  \<^verbatim>\<open>CommonTags\<close> appends through it: after
  \<^verbatim>\<open>Clone(CommonTags("region", "eu"))\<close> on the example client, the client's own tag
  set holds \<open>region\<close> as well. The clone's copy is taken only afterwards.
\<close>

theorem Clone_CommonTags_writes_parent_tags:
  "deref (tagsH app_store) (tags app_client) =
     Inr \<lparr>kvs = [''env'' \<mapsto> ''prod''], keys = [''env'']\<rparr>
   \<and> \<not> isl (Clone app_client [CommonTagsOpt [''region'', ''eu'']] app_store)
   \<and> deref (tagsH (snd (projr (Clone app_client [CommonTagsOpt [''region'', ''eu'']] app_store))))
        (tags app_client) =
     Inr \<lparr>kvs = [''env'' \<mapsto> ''prod'', ''region'' \<mapsto> ''eu''], keys = [''env'', ''region'']\<rparr>"
  by (simp add: Clone_def deref_def app_client_def app_store_def app_conn_def Let_def
      alloc_tags_def clone_def numTags_def index_def
      newTags_def newTags_loop.simps drop_bit_eq_div push_bit_eq_mult append_tags_def)

theorem Clone_CommonTags_writes_parent_tags_witness:
  "deref (tagsH (snd (projr (Clone app_client [CommonTagsOpt [''region'', ''eu'']] app_store))))
        (tags app_client)
     \<noteq> deref (tagsH app_store) (tags app_client)"
proof -
  have "keys \<lparr>kvs = [''env'' \<mapsto> ''prod'', ''region'' \<mapsto> ''eu''], keys = [''env'', ''region'']\<rparr>
      \<noteq> keys \<lparr>kvs = [''env'' \<mapsto> ''prod''], keys = [''env'']\<rparr>"
    by simp
  then have "\<lparr>kvs = [''env'' \<mapsto> ''prod'', ''region'' \<mapsto> ''eu''], keys = [''env'', ''region'']\<rparr>
      \<noteq> \<lparr>kvs = [''env'' \<mapsto> ''prod''], keys = [''env'']\<rparr>"
    by metis
  then show ?thesis
    using Clone_CommonTags_writes_parent_tags by simp
qed

section \<open>The Transport's buffer\<close>

lemma conn_flush_open:
  "\<not> closed c \<Longrightarrow> buf c \<noteq> [] \<Longrightarrow>
   buf (conn_flush c n) = [] \<and> sent (w (conn_flush c n)) = sent (w c) @ [buf c]
   \<and> maxPacketSize (conn_flush c n) = maxPacketSize c \<and> \<not> closed (conn_flush c n)"
  by (simp add: conn_flush_def w_Write_def handleError_def split: option.splits)

lemma conn_flush_empty: "buf c = [] \<Longrightarrow> conn_flush c n = c"
  by (simp add: conn_flush_def)

text \<open>
  Claim C1. On an open Transport, with \<open>l\<close> the line and its separator:
  when \<open>l\<close> would take a non-empty buffer over the maximum packet size and \<open>l\<close> itself
  fits, the buffer is written as one packet and the new buffer is exactly \<open>l\<close> (a flush
  after that gives the second packet); when \<open>l\<close> alone exceeds the maximum, the buffer
  (if non-empty) is written first and then \<open>l\<close> as a packet of its own, and nothing is
  buffered; when \<open>l\<close> fits behind the buffer, nothing is written and \<open>l\<close> is appended.
  In every case the buffer after the call is empty or no longer than the maximum.
\<close>

theorem emit_flushes_before_overflow:
  assumes "\<not> closed c"
  shows
    "(buf c \<noteq> [] \<and> int (length (buf c) + length (line @ [CHR 0x0A])) > maxPacketSize c
        \<and> int (length (line @ [CHR 0x0A])) \<le> maxPacketSize c \<longrightarrow>
        sent (w (conn_emit c line)) = sent (w c) @ [buf c]
        \<and> buf (conn_emit c line) = line @ [CHR 0x0A]
        \<and> sent (w (conn_flush (conn_emit c line) 0)) = sent (w c) @ [buf c, line @ [CHR 0x0A]])
     \<and> (buf c \<noteq> [] \<and> int (length (line @ [CHR 0x0A])) > maxPacketSize c \<longrightarrow>
        sent (w (conn_emit c line)) = sent (w c) @ [buf c, line @ [CHR 0x0A]]
        \<and> buf (conn_emit c line) = [])
     \<and> (buf c = [] \<and> int (length (line @ [CHR 0x0A])) > maxPacketSize c \<longrightarrow>
        sent (w (conn_emit c line)) = sent (w c) @ [line @ [CHR 0x0A]]
        \<and> buf (conn_emit c line) = [])
     \<and> (int (length (buf c) + length (line @ [CHR 0x0A])) \<le> maxPacketSize c \<longrightarrow>
        sent (w (conn_emit c line)) = sent (w c)
        \<and> buf (conn_emit c line) = buf c @ line @ [CHR 0x0A])
     \<and> (buf (conn_emit c line) = []
        \<or> int (length (buf (conn_emit c line))) \<le> maxPacketSize c)"
proof -
  let ?l = "line @ [CHR 0x0A]"
  have 1: "sent (w (conn_emit c line)) = sent (w c) @ [buf c]
        \<and> buf (conn_emit c line) = ?l
        \<and> sent (w (conn_flush (conn_emit c line) 0)) = sent (w c) @ [buf c, ?l]"
    if "buf c \<noteq> []" "int (length (buf c) + length ?l) > maxPacketSize c"
       "int (length ?l) \<le> maxPacketSize c"
  proof -
    have e: "conn_emit c line = (conn_flush c 0)\<lparr>buf := ?l\<rparr>"
      using assms that conn_flush_open [of c 0] by (simp add: conn_emit_def Let_def)
    have "\<not> closed (conn_emit c line)" "buf (conn_emit c line) \<noteq> []"
      using assms that conn_flush_open [of c 0] e by simp_all
    from conn_flush_open [OF this, of 0] show ?thesis
      using assms that conn_flush_open [of c 0] e by simp
  qed
  have 2: "sent (w (conn_emit c line)) = sent (w c) @ [buf c, ?l] \<and> buf (conn_emit c line) = []"
    if "buf c \<noteq> []" "int (length ?l) > maxPacketSize c"
    using assms that conn_flush_open [of c 0]
    by (simp add: conn_emit_def Let_def w_Write_def handleError_def split: option.splits)
  have 3: "sent (w (conn_emit c line)) = sent (w c) @ [?l] \<and> buf (conn_emit c line) = []"
    if "buf c = []" "int (length ?l) > maxPacketSize c"
    using assms that
    by (simp add: conn_emit_def Let_def w_Write_def handleError_def split: option.splits)
  have 4: "sent (w (conn_emit c line)) = sent (w c) \<and> buf (conn_emit c line) = buf c @ ?l"
    if "int (length (buf c) + length ?l) \<le> maxPacketSize c"
    using assms that by (simp add: conn_emit_def Let_def)
  have 5: "buf (conn_emit c line) = [] \<or> int (length (buf (conn_emit c line))) \<le> maxPacketSize c"
  proof (cases "int (length ?l) > maxPacketSize c")
    case True
    then show ?thesis using 2 3 by (cases "buf c = []") auto
  next
    case False
    show ?thesis
    proof (cases "int (length (buf c) + length ?l) \<le> maxPacketSize c")
      case True
      then show ?thesis using 4 by simp
    next
      case over: False
      then have "buf c \<noteq> []" using False by auto
      then show ?thesis using 1 over False by simp
    qed
  qed
  from 1 2 3 4 5 show ?thesis by blast
qed

theorem emit_flushes_before_overflow_witness:
  "\<not> closed (app_conn\<lparr>buf := ''a:1|c'' @ [CHR 0x0A], maxPacketSize := 10\<rparr>)
   \<and> buf (app_conn\<lparr>buf := ''a:1|c'' @ [CHR 0x0A], maxPacketSize := 10\<rparr>) \<noteq> []
   \<and> sent (w (conn_emit (app_conn\<lparr>buf := ''a:1|c'' @ [CHR 0x0A], maxPacketSize := 10\<rparr>) ''b:2|c''))
       = [''a:1|c'' @ [CHR 0x0A]]
   \<and> buf (conn_emit (app_conn\<lparr>buf := ''a:1|c'' @ [CHR 0x0A], maxPacketSize := 10\<rparr>) ''b:2|c'')
       = ''b:2|c'' @ [CHR 0x0A]
   \<and> sent (w (conn_emit (app_conn\<lparr>buf := ''a:1|c'' @ [CHR 0x0A], maxPacketSize := 10\<rparr>)
               ''a.very.long.bucket:2|c''))
       = [''a:1|c'' @ [CHR 0x0A], ''a.very.long.bucket:2|c'' @ [CHR 0x0A]]
   \<and> buf (conn_emit (app_conn\<lparr>buf := ''a:1|c'' @ [CHR 0x0A], maxPacketSize := 10\<rparr>)
               ''a.very.long.bucket:2|c'') = []
   \<and> \<not> closed (app_conn\<lparr>maxPacketSize := 10\<rparr>) \<and> buf (app_conn\<lparr>maxPacketSize := 10\<rparr>) = []
   \<and> sent (w (conn_emit (app_conn\<lparr>maxPacketSize := 10\<rparr>) ''a.very.long.bucket:2|c''))
       = [''a.very.long.bucket:2|c'' @ [CHR 0x0A]]
   \<and> buf (conn_emit (app_conn\<lparr>maxPacketSize := 10\<rparr>) ''a.very.long.bucket:2|c'') = []
   \<and> \<not> closed (app_conn\<lparr>buf := ''a:1|c'' @ [CHR 0x0A]\<rparr>)
   \<and> sent (w (conn_emit (app_conn\<lparr>buf := ''a:1|c'' @ [CHR 0x0A]\<rparr>) ''b:2|c'')) = []
   \<and> buf (conn_emit (app_conn\<lparr>buf := ''a:1|c'' @ [CHR 0x0A]\<rparr>) ''b:2|c'')
       = ''a:1|c'' @ [CHR 0x0A] @ ''b:2|c'' @ [CHR 0x0A]"
  using
    emit_flushes_before_overflow
      [of "app_conn\<lparr>buf := ''a:1|c'' @ [CHR 0x0A], maxPacketSize := 10\<rparr>" "''b:2|c''"]
    emit_flushes_before_overflow
      [of "app_conn\<lparr>buf := ''a:1|c'' @ [CHR 0x0A], maxPacketSize := 10\<rparr>" "''a.very.long.bucket:2|c''"]
    emit_flushes_before_overflow
      [of "app_conn\<lparr>maxPacketSize := 10\<rparr>" "''a.very.long.bucket:2|c''"]
    emit_flushes_before_overflow
      [of "app_conn\<lparr>buf := ''a:1|c'' @ [CHR 0x0A]\<rparr>" "''b:2|c''"]
  by (simp add: app_conn_def)

section \<open>Muted clients\<close>

text \<open>
  Claim C6. On a muted client every sequence of metric calls, flushes and closes
  returns the store as it was, so no packet is written on any connection and none of
  the calls panics, whatever their arguments; \<^verbatim>\<open>Flush\<close> and \<^verbatim>\<open>Close\<close> return at once.
  A clone of a muted client is muted, and cloning leaves every connection as it was.
\<close>

theorem muted_never_writes:
  assumes "muted c"
  shows "run fr (map (\<lambda>(cl, r). (c, cl, r)) calls) st = Inr st
     \<and> Flush c st = Inr st
     \<and> Close c st = Inr st
     \<and> (\<forall>opts cl st'. Clone c opts st = Inr (cl, st') \<longrightarrow> muted cl \<and> connH st' = connH st)"
proof -
  have "\<forall>x\<in>set (map (\<lambda>(cl, r). (c, cl, r)) calls). muted (fst x)"
    using assms by auto
  then have r: "run fr (map (\<lambda>(cl, r). (c, cl, r)) calls) st = Inr st"
    by (rule run_muted)
  have f: "Flush c st = Inr st" "Close c st = Inr st"
    using assms by (simp_all add: Flush_def Close_def)
  have cl: "muted cl \<and> connH st' = connH st" if "Clone c opts st = Inr (cl, st')" for opts cl st'
    using Clone_fields(1,4) [OF that] assms by simp
  from r f cl show ?thesis by blast
qed

lemma Clone_app_muted_parent:
  "Clone (app_client\<lparr>muted := True\<rparr>) [] app_store =
     Inr (app_client\<lparr>muted := True, tags := Some 2\<rparr>,
          app_store\<lparr>tagsH := (tagsH app_store)
                      (2 \<mapsto> \<lparr>kvs = [''env'' \<mapsto> ''prod''], keys = [''env'']\<rparr>),
                    nxt := 3\<rparr>)"
  by (simp add: Clone_def deref_def app_client_def app_store_def app_conn_def Let_def
      alloc_tags_def clone_def numTags_def index_def)

theorem muted_never_writes_witness:
  "muted (app_client\<lparr>muted := True\<rparr>)
   \<and> run (\<lambda>x. []) (map (\<lambda>(cl, r). (app_client\<lparr>muted := True\<rparr>, cl, r))
        [(CountCall ''requests'' ''1'' [''odd''], 0), (TimingCall ''latency'' ''12'', 0),
         (FlushCall, 0), (CloseCall, 0)]) app_store = Inr app_store
   \<and> Flush (app_client\<lparr>muted := True\<rparr>) app_store = Inr app_store
   \<and> Close (app_client\<lparr>muted := True\<rparr>) app_store = Inr app_store
   \<and> packets app_store 1 = []
   \<and> Clone (app_client\<lparr>muted := True\<rparr>) [] app_store =
     Inr (app_client\<lparr>muted := True, tags := Some 2\<rparr>,
          app_store\<lparr>tagsH := (tagsH app_store)
                      (2 \<mapsto> \<lparr>kvs = [''env'' \<mapsto> ''prod''], keys = [''env'']\<rparr>),
                    nxt := 3\<rparr>)
   \<and> muted (app_client\<lparr>muted := True, tags := Some 2\<rparr>)
   \<and> connH (app_store\<lparr>tagsH := (tagsH app_store)
                      (2 \<mapsto> \<lparr>kvs = [''env'' \<mapsto> ''prod''], keys = [''env'']\<rparr>),
                    nxt := 3\<rparr>) = connH app_store"
  using muted_never_writes [of "app_client\<lparr>muted := True\<rparr>" "\<lambda>x. []"
      "[(CountCall ''requests'' ''1'' [''odd''], 0), (TimingCall ''latency'' ''12'', 0),
         (FlushCall, 0), (CloseCall, 0)]" app_store]
    Clone_app_muted_parent
  by (simp add: packets_def app_store_def app_conn_def)

section \<open>A client whose construction failed\<close>

text \<open>
  Claim C4. When \<^verbatim>\<open>newConn\<close> returns an error, \<^verbatim>\<open>New\<close> returns a client together
  with that error, and the client is muted: every metric call, \<^verbatim>\<open>Flush\<close> and
  \<^verbatim>\<open>Close\<close> on it returns the store as it was. Its tag pointer is left nil, though,
  so \<^verbatim>\<open>Clone\<close> on it panics, whatever the options and whatever connection pointer
  \<^verbatim>\<open>newConn\<close> returned.
\<close>

theorem failed_New_Clone_panics:
  assumes "New opts nc st = Inr ((c, Some e), st')"
  shows "muted c
     \<and> (\<forall>fr cl r s. exec fr c cl r s = Inr s)
     \<and> isl (Clone c opts2 s2)"
  using New_failed [OF assms] exec_muted Clone_nil_tags by blast

lemma New_dial_failure:
  "New [] (newConn (Some (NetError ''dial''))) empty_store =
     Inr ((\<lparr>conn = None, muted = True, rate = 0, prefix = [], tags = None, tagFormat = 0\<rparr>,
           Some (NetError ''dial'')),
          \<lparr>tagsH = [0 \<mapsto> emptyTags], connH = Map.empty, nxt = 1\<rparr>)"
  by (simp add: New_def newConn_def empty_store_def alloc_tags_def Let_def)

theorem failed_New_Clone_panics_witness:
  "New [] (newConn (Some (NetError ''dial''))) empty_store =
     Inr ((\<lparr>conn = None, muted = True, rate = 0, prefix = [], tags = None, tagFormat = 0\<rparr>,
           Some (NetError ''dial'')),
          \<lparr>tagsH = [0 \<mapsto> emptyTags], connH = Map.empty, nxt = 1\<rparr>)
   \<and> isl (Clone \<lparr>conn = None, muted = True, rate = 0, prefix = [], tags = None, tagFormat = 0\<rparr>
            [] \<lparr>tagsH = [0 \<mapsto> emptyTags], connH = Map.empty, nxt = 1\<rparr>)
   \<and> Clone \<lparr>conn = None, muted = True, rate = 0, prefix = [], tags = None, tagFormat = 0\<rparr>
        [] \<lparr>tagsH = [0 \<mapsto> emptyTags], connH = Map.empty, nxt = 1\<rparr> = Inl NilDereference
   \<and> Clone \<lparr>conn = Some 1, muted = True, rate = 0, prefix = [], tags = None, tagFormat = 0\<rparr>
        [] app_store = Inl NilDereference"
  using failed_New_Clone_panics [OF New_dial_failure,
      of "[]" "\<lparr>tagsH = [0 \<mapsto> emptyTags], connH = Map.empty, nxt = 1\<rparr>"]
    New_dial_failure
  by (simp add: Clone_def deref_def app_store_def)

section \<open>After Close\<close>





lemma New_holds_tags:
  assumes "New opts nc st = Inr ((c, None), st')"
  shows "tags c = Some (nxt st)"
proof -
  let ?st0 = "st\<lparr>tagsH := (tagsH st)(nxt st \<mapsto> emptyTags), nxt := Suc (nxt st)\<rparr>"
  let ?cf = "\<lparr>Conn = \<lparr>Addr = '':8125'', ErrorHandler = None,
                           FlushPeriod = 100 * 1000000, MaxPacketSize = 1440,
                           Network = ''udp'', TagFormat = 0\<rparr>,
                  Client = \<lparr>Muted = False, Rate = 1, Prefix = [], Tags = Some (nxt st)\<rparr>\<rparr>"
  from assms obtain cf' st1 where ao: "apply_options opts ?cf ?st0 = Inr (cf', st1)"
    by (auto simp: New_def alloc_tags_def Let_def split: sum.splits)
  have "Tags (Client cf') = Some (nxt st)"
    using apply_options_frame [OF ao] by simp
  then show ?thesis
    using assms ao
    by (auto simp: New_def alloc_tags_def Let_def split: prod.splits option.splits)
qed

lemma Clone_holds_tags:
  assumes "Clone c opts st = Inr (cl, st')"
  shows "\<exists>t. deref (tagsH st') (tags cl) = Inr t"
  using assms
  by (auto simp: Clone_def Let_def alloc_tags_def deref_def split: sum.splits)







end
